theory Spec2Isabelle
  imports Main "HOL-Library.Char_ord" "HOL-Library.List_Lexorder" "HOL-Library.AList" "HOL-Library.Multiset"
begin

section \<open>Strings\<close>

text \<open>
  Strings are lists of characters. The model covers ASCII text, which is what key
  sequences of a keybindings file are made of: \<open>toLowerCase\<close> maps the letters A to Z to
  a to z and leaves every other character alone, and the white space of \<open>trim\<close> and of
  the regular expression class \<open>\s\<close> is tab, line feed, vertical tab, form feed, carriage
  return and space.
\<close>

definition lowerChar :: "char \<Rightarrow> char" where
  "lowerChar c =
     (case map_of (zip ''ABCDEFGHIJKLMNOPQRSTUVWXYZ'' ''abcdefghijklmnopqrstuvwxyz'') c of
        Some l \<Rightarrow> l
      | None \<Rightarrow> c)"

definition toLowerCase :: "string \<Rightarrow> string" where
  "toLowerCase s = map lowerChar s"

definition isSpace :: "char \<Rightarrow> bool" where
  "isSpace c = (c \<in> set [CHR 0x09, CHR 0x0A, CHR 0x0B, CHR 0x0C, CHR 0x0D, CHR '' ''])"

definition trim :: "string \<Rightarrow> string" where
  "trim s = rev (dropWhile isSpace (rev (dropWhile isSpace s)))"

text \<open>
  \<open>String.prototype.split\<close> with a one-character separator: the text before the first
  separator, then the split of what follows it. The result is never empty: the empty string
  splits into one empty token.
\<close>

function splitChar :: "char \<Rightarrow> string \<Rightarrow> string list" where
  "splitChar d s =
     takeWhile (\<lambda>c. c \<noteq> d) s #
       (case dropWhile (\<lambda>c. c \<noteq> d) s of [] \<Rightarrow> [] | _ # r \<Rightarrow> splitChar d r)"
  by pat_completeness auto
termination
proof (relation "measure (\<lambda>(d, s). length s)")
  fix d :: char and s x21 x22
  assume "dropWhile (\<lambda>c. c \<noteq> d) s = x21 # x22"
  then have "length (x21 # x22) \<le> length s"
    by (metis length_dropWhile_le)
  then show "((d, x22), (d, s)) \<in> measure (\<lambda>(d, s). length s)" by simp
qed simp

text \<open>
  \<open>split(/\s+/)\<close>: the text before the first white space, then, when there is white space,
  the split of what follows the whole run of it.
\<close>

function splitWhitespace :: "string \<Rightarrow> string list" where
  "splitWhitespace s =
     takeWhile (\<lambda>c. \<not> isSpace c) s #
       (case dropWhile (\<lambda>c. \<not> isSpace c) s of
          [] \<Rightarrow> []
        | _ # r \<Rightarrow> splitWhitespace (dropWhile isSpace r))"
  by pat_completeness auto
termination
proof (relation "measure length")
  fix s :: string and x21 x22
  assume "dropWhile (\<lambda>c. \<not> isSpace c) s = x21 # x22"
  then have "length (x21 # x22) \<le> length s"
    by (metis length_dropWhile_le)
  moreover have "length (dropWhile isSpace x22) \<le> length x22"
    by (rule length_dropWhile_le)
  ultimately show "(dropWhile isSpace x22, s) \<in> measure length" by simp
qed simp

text \<open>\<open>Array.prototype.join\<close> on strings.\<close>

fun joinWith :: "string \<Rightarrow> string list \<Rightarrow> string" where
  "joinWith sep [] = []"
| "joinWith sep [x] = x"
| "joinWith sep (x # y # ys) = x @ sep @ joinWith sep (y # ys)"

text \<open>\<open>String.prototype.startsWith\<close>.\<close>

definition startsWith :: "string \<Rightarrow> string \<Rightarrow> bool" where
  "startsWith s p = (take (length p) s = p)"

section \<open>The data model (types.ts)\<close>

record KeyChord =
  modifiers :: "string list"
  key :: string
  raw :: string

record ParsedKeybinding =
  key :: string
  command :: string
  when' :: "string option"
  disabled :: bool
  sourceEditor :: string
  commandLabel :: "string option"
  category :: "string option"
  isMultiChord :: bool
  conflictsWith :: "string list option"

text \<open>
  A \<open>Map<string, PrefixNode>\<close> is an association list in insertion order, the order in
  which a JavaScript \<open>Map\<close> is iterated: \<open>get\<close> is \<^const>\<open>map_of\<close> and \<open>set\<close> is
  \<^const>\<open>AList.update\<close>, which replaces the value of a key that is present where it stands
  and appends a new key at the end.
\<close>

datatype PrefixNode =
  PrefixNode (chord: string) (children: "(string \<times> PrefixNode) list")
    (bindings: "ParsedKeybinding list") (fullPath: "string list")

section \<open>KeybindingParser (parser.ts)\<close>

definition modifierSet :: "string list" where
  "modifierSet = [''cmd'', ''ctrl'', ''shift'', ''alt'', ''option'', ''meta'']"

text \<open>
  The loop of \<open>parseChord\<close> over \<open>parts\<close>, with the two variables it assigns. The test
  \<open>i < parts.length - 1\<close> holds exactly when tokens remain after the current one.
\<close>

fun parseParts :: "string list \<Rightarrow> string list \<Rightarrow> string \<Rightarrow> string list \<times> string" where
  "parseParts [] mods k = (mods, k)"
| "parseParts (part # rest) mods k =
     (if part \<in> set modifierSet \<and> rest \<noteq> [] then parseParts rest (mods @ [part]) k
      else parseParts rest mods part)"

text \<open>\<open>chord.toLowerCase().split('+')\<close>, the \<open>parts\<close> of \<open>parseChord\<close>.\<close>

definition chordParts :: "string \<Rightarrow> string list" where
  "chordParts c = splitChar (CHR ''+'') (toLowerCase c)"

definition parseChord :: "string \<Rightarrow> KeyChord" where
  "parseChord c =
     (let parts = chordParts c;
          r = parseParts parts [] []
      in \<lparr>KeyChord.modifiers = fst r, KeyChord.key = snd r, KeyChord.raw = c\<rparr>)"

definition parseKeySequence :: "string \<Rightarrow> KeyChord list" where
  "parseKeySequence keySequence = map parseChord (splitWhitespace (trim keySequence))"

section \<open>PrefixGraphBuilder (searchIndex.ts, lines 127 to 379)\<close>

definition normalizeChordKey :: "string \<Rightarrow> string" where
  "normalizeChordKey c =
     (let parsed = parseChord c;
          sortedModifiers = sort (KeyChord.modifiers parsed)
      in if length sortedModifiers > 0
         then joinWith ''+'' (sortedModifiers @ [KeyChord.key parsed])
         else KeyChord.key parsed)"

definition createNode :: "string \<Rightarrow> string list \<Rightarrow> PrefixNode" where
  "createNode c path = PrefixNode c [] [] path"

text \<open>
  The part of \<open>buildPrefixTree\<close> that works on \<open>currentNode\<close>: the loop over the chords
  after the first (each looked up among the children, created and stored when it is
  missing, then entered), and the push of the binding onto the node the walk ends in.
  The source mutates the nodes in place; here the walk returns the node as it has become.
  For a binding of one chord there is nothing to walk and the binding is pushed onto the
  root node, as the source does before its \<open>continue\<close>.
\<close>

fun walkChords :: "string list \<Rightarrow> string list \<Rightarrow> ParsedKeybinding \<Rightarrow> PrefixNode \<Rightarrow> PrefixNode" where
  "walkChords path [] binding (PrefixNode c ch bs fp) = PrefixNode c ch (bs @ [binding]) fp"
| "walkChords path (r # rs) binding (PrefixNode c ch bs fp) =
     (let chordKey = normalizeChordKey r;
          path' = path @ [r];
          childNode = (case map_of ch chordKey of
                         None \<Rightarrow> createNode r path'
                       | Some n \<Rightarrow> n)
      in PrefixNode c (AList.update chordKey (walkChords path' rs binding childNode) ch) bs fp)"

text \<open>One iteration of the loop of \<open>buildPrefixTree\<close> over the bindings.\<close>

definition addBinding :: "(string \<times> PrefixNode) list \<Rightarrow> ParsedKeybinding \<Rightarrow> (string \<times> PrefixNode) list" where
  "addBinding roots binding =
     (if ParsedKeybinding.key binding = [] then roots
      else case parseKeySequence (ParsedKeybinding.key binding) of
          [] \<Rightarrow> roots
        | c0 # cs \<Rightarrow>
            (let firstChordKey = normalizeChordKey (KeyChord.raw c0);
                 currentNode = (case map_of roots firstChordKey of
                                  None \<Rightarrow> createNode (KeyChord.raw c0) [KeyChord.raw c0]
                                | Some n \<Rightarrow> n)
             in AList.update firstChordKey
                  (walkChords [KeyChord.raw c0] (map KeyChord.raw cs) binding currentNode) roots))"

definition buildPrefixTree :: "ParsedKeybinding list \<Rightarrow> (string \<times> PrefixNode) list" where
  "buildPrefixTree bs = foldl addBinding [] bs"

record TreeStats =
  totalNodes :: nat
  maxDepth :: nat
  multiChordCount :: nat
  singleChordCount :: nat

text \<open>The inner \<open>traverse\<close> of \<open>getTreeStats\<close>, with the four counters it updates passed along.\<close>

fun traverseStats :: "PrefixNode \<Rightarrow> nat \<Rightarrow> TreeStats \<Rightarrow> TreeStats" where
  "traverseStats (PrefixNode c ch bs fp) depth st =
     (let st1 = st\<lparr>totalNodes := totalNodes st + 1, maxDepth := max (maxDepth st) depth\<rparr>;
          st2 = (if length bs > 0
                 then (if depth = 0
                       then st1\<lparr>singleChordCount := singleChordCount st1 + length bs\<rparr>
                       else st1\<lparr>multiChordCount := multiChordCount st1 + length bs\<rparr>)
                 else st1)
      in fold (\<lambda>kn acc. traverseStats (snd kn) (depth + 1) acc) ch st2)"

definition getTreeStats :: "(string \<times> PrefixNode) list \<Rightarrow> TreeStats" where
  "getTreeStats roots =
     fold (\<lambda>kn acc. traverseStats (snd kn) 0 acc) roots
       \<lparr>totalNodes = 0, maxDepth = 0, multiChordCount = 0, singleChordCount = 0\<rparr>"

text \<open>The inner \<open>traverse\<close> of \<open>flattenTree\<close>: the bindings of a node, then its children in order.\<close>

fun traverseFlatten :: "PrefixNode \<Rightarrow> ParsedKeybinding list" where
  "traverseFlatten (PrefixNode c ch bs fp) =
     bs @ concat (map (\<lambda>kn. traverseFlatten (snd kn)) ch)"

definition flattenTree :: "(string \<times> PrefixNode) list \<Rightarrow> ParsedKeybinding list" where
  "flattenTree roots = concat (map (\<lambda>kn. traverseFlatten (snd kn)) roots)"

section \<open>LiveChordTracker (searchIndex.ts, lines 392 to 823)\<close>

text \<open>
  The fields of the tracker that its transitions read and write. \<open>resetTimer\<close> holds the
  handle of the last timer the tracker has set, if any (handles are numbered in the order
  of the \<open>setTimeout\<close> calls, counted by \<open>timersCreated\<close>), and \<open>timerPending\<close> says whether
  the callback of that handle is still scheduled: every timer of the tracker is cleared
  before its handle is dropped or replaced, so no other timer can be pending. \<open>fired\<close> is
  the log of the values passed to \<open>onChordChangeEmitter.fire\<close>.
\<close>

record LiveChordTracker =
  isActive :: bool
  currentChordSequence :: "string list"
  resetTimer :: "nat option"
  timerPending :: bool
  timersCreated :: nat
  fired :: "string list list"

definition activate :: "LiveChordTracker \<Rightarrow> LiveChordTracker" where
  "activate t = t\<lparr>isActive := True, currentChordSequence := []\<rparr>"

definition deactivate :: "LiveChordTracker \<Rightarrow> LiveChordTracker" where
  "deactivate t =
     (let t1 = t\<lparr>isActive := False, currentChordSequence := []\<rparr>;
          t2 = (if resetTimer t1 \<noteq> None then t1\<lparr>timerPending := False, resetTimer := None\<rparr>
                else t1)
      in t2\<lparr>fired := fired t2 @ [[]]\<rparr>)"

definition handleKeyPress :: "LiveChordTracker \<Rightarrow> string \<Rightarrow> LiveChordTracker" where
  "handleKeyPress t c =
     (if c = [] then t
      else
        let t1 = t\<lparr>currentChordSequence := currentChordSequence t @ [c]\<rparr>;
            t2 = t1\<lparr>fired := fired t1 @ [currentChordSequence t1]\<rparr>;
            t3 = (if resetTimer t2 \<noteq> None then t2\<lparr>timerPending := False\<rparr> else t2)
        in t3\<lparr>resetTimer := Some (timersCreated t3), timerPending := True,
                timersCreated := timersCreated t3 + 1\<rparr>)"

definition resetSequence :: "LiveChordTracker \<Rightarrow> LiveChordTracker" where
  "resetSequence t = (if \<not> isActive t then t else t\<lparr>currentChordSequence := []\<rparr>)"

text \<open>The 3000 ms pass with no further call: the scheduled callback, if any, runs.\<close>

definition timerFires :: "LiveChordTracker \<Rightarrow> LiveChordTracker" where
  "timerFires t = (if timerPending t then resetSequence (t\<lparr>timerPending := False\<rparr>) else t)"

definition getCurrentSequence :: "LiveChordTracker \<Rightarrow> string list" where
  "getCurrentSequence t = currentChordSequence t"

definition isWordChar :: "char \<Rightarrow> bool" where
  "isWordChar c =
     (c \<in> set ''ABCDEFGHIJKLMNOPQRSTUVWXYZabcdefghijklmnopqrstuvwxyz0123456789_'')"

text \<open>
  \<open>chord.replace(/\bopt\b/g, 'option')\<close>, scanning from the left. The flag says whether the
  character before the current position is a word character; a match needs a word
  boundary on both sides of \<open>opt\<close>, and the scan goes on behind the match.
\<close>

fun replaceOpt :: "bool \<Rightarrow> string \<Rightarrow> string" where
  "replaceOpt prevWord [] = []"
| "replaceOpt prevWord (c # cs) =
     (if \<not> prevWord \<and> c = CHR ''o'' \<and> take 2 cs = ''pt'' \<and>
         (case drop 2 cs of [] \<Rightarrow> True | d # _ \<Rightarrow> \<not> isWordChar d)
      then ''option'' @ replaceOpt True (drop 2 cs)
      else c # replaceOpt (isWordChar c) cs)"

definition filterBindings :: "LiveChordTracker \<Rightarrow> ParsedKeybinding list \<Rightarrow> ParsedKeybinding list" where
  "filterBindings t bs =
     (if length (currentChordSequence t) = 0 then bs
      else
        let normalizedSequence = map (replaceOpt False) (currentChordSequence t);
            currentSequenceStr = toLowerCase (joinWith '' '' normalizedSequence)
        in filter (\<lambda>binding.
             let bindingKey = toLowerCase (ParsedKeybinding.key binding)
             in if bindingKey = currentSequenceStr then True
                else if startsWith bindingKey (currentSequenceStr @ '' '') then True
                else False) bs)"

section \<open>The specification's wording, for comparison\<close>

text \<open>
  The base key as the specification words it: walking the tokens from the left, the first
  token that is not a modifier, where a token is a modifier when it is in the modifier set
  and is not the last token.
\<close>

fun spec_baseKey :: "string list \<Rightarrow> string" where
  "spec_baseKey [] = []"
| "spec_baseKey (part # rest) =
     (if part \<in> set modifierSet \<and> rest \<noteq> [] then spec_baseKey rest else part)"

text \<open>
  The filter as the specification words it: the current sequence joined by one space,
  compared without regard to case with the key sequence string of each binding.
\<close>

definition spec_filterBindings :: "string list \<Rightarrow> ParsedKeybinding list \<Rightarrow> ParsedKeybinding list" where
  "spec_filterBindings sq bs =
     (if sq = [] then bs
      else filter (\<lambda>binding.
             toLowerCase (ParsedKeybinding.key binding) = toLowerCase (joinWith '' '' sq) \<or>
             startsWith (toLowerCase (ParsedKeybinding.key binding))
               (toLowerCase (joinWith '' '' sq) @ '' '')) bs)"

section \<open>Scenario inputs\<close>

text \<open>
  A parsed binding with the given key and command: not disabled, with no when clause, label
  or category, and \<open>isMultiChord\<close> as \<open>parseBinding\<close> computes it.
\<close>

definition binding :: "string \<Rightarrow> string \<Rightarrow> ParsedKeybinding" where
  "binding k c =
     \<lparr>ParsedKeybinding.key = k, command = c, when' = None, disabled = False,
      sourceEditor = ''VS Code'', commandLabel = None, category = None,
      isMultiChord = (length (parseKeySequence k) > 1), conflictsWith = Some []\<rparr>"

section \<open>Chord parsing\<close>

lemmas parser_eval =
  chordParts_def parseChord_def toLowerCase_def lowerChar_def modifierSet_def
  normalizeChordKey_def parseKeySequence_def trim_def isSpace_def Let_def

lemma splitChar_not_Nil: "splitChar d s \<noteq> []"
  by (subst splitChar.simps) simp

lemma splitWhitespace_not_Nil: "splitWhitespace s \<noteq> []"
  by (subst splitWhitespace.simps) simp

lemma chordParts_not_Nil: "chordParts c \<noteq> []"
  by (simp add: chordParts_def splitChar_not_Nil)

lemma parseParts_eq:
  "parseParts ps mods k =
     (mods @ filter (\<lambda>p. p \<in> set modifierSet) (butlast ps), if ps = [] then k else last ps)"
  by (induction ps arbitrary: mods k) auto

lemma parseChord_fields:
  "parseChord c =
     \<lparr>KeyChord.modifiers = filter (\<lambda>p. p \<in> set modifierSet) (butlast (chordParts c)),
      KeyChord.key = last (chordParts c), KeyChord.raw = c\<rparr>"
  by (simp add: parseChord_def Let_def parseParts_eq chordParts_not_Nil)

lemma lowerChar_idem: "lowerChar (lowerChar c) = lowerChar c"
  by (simp add: lowerChar_def split: option.splits if_splits)

lemma toLowerCase_idem: "toLowerCase (toLowerCase s) = toLowerCase s"
  by (simp add: toLowerCase_def lowerChar_idem)

lemma parseKeySequence_not_Nil: "parseKeySequence s \<noteq> []"
  by (simp add: parseKeySequence_def splitWhitespace_not_Nil)

lemma normalizeChordKey_fields:
  "normalizeChordKey c =
     (let ms = sort (filter (\<lambda>p. p \<in> set modifierSet) (butlast (chordParts c)))
      in if ms = [] then last (chordParts c) else joinWith ''+'' (ms @ [last (chordParts c)]))"
  by (simp add: normalizeChordKey_def parseChord_fields Let_def)

text \<open>
  The canonical key does not depend on the order of the tokens before the last one.
\<close>

lemma normalizeChordKey_permutation:
  assumes "mset (butlast (chordParts a)) = mset (butlast (chordParts b))"
    and "last (chordParts a) = last (chordParts b)"
  shows "normalizeChordKey a = normalizeChordKey b"
proof -
  let ?f = "filter (\<lambda>p. p \<in> set modifierSet)"
  have "mset (?f (butlast (chordParts a))) = mset (?f (butlast (chordParts b)))"
    using assms(1) by simp
  then have "sort (?f (butlast (chordParts a))) = sort (?f (butlast (chordParts b)))"
    by (metis properties_for_sort sorted_sort mset_sort)
  with assms(2) show ?thesis
    by (simp add: normalizeChordKey_fields Let_def)
qed

text \<open>
  C1. The canonical keys of \<open>shift+cmd+k\<close> and \<open>cmd+shift+k\<close> are the same string,
  \<open>cmd+shift+k\<close>, and two bindings with these keys end at one root node of the tree, which
  keeps the chord text seen first.
\<close>

theorem canonical_key_modifier_order:
  "normalizeChordKey ''shift+cmd+k'' = normalizeChordKey ''cmd+shift+k'' \<and>
   normalizeChordKey ''cmd+shift+k'' = ''cmd+shift+k'' \<and>
   buildPrefixTree
     [b1\<lparr>ParsedKeybinding.key := ''shift+cmd+k''\<rparr>, b2\<lparr>ParsedKeybinding.key := ''cmd+shift+k''\<rparr>] =
     [(''cmd+shift+k'',
       PrefixNode ''shift+cmd+k'' []
         [b1\<lparr>ParsedKeybinding.key := ''shift+cmd+k''\<rparr>,
          b2\<lparr>ParsedKeybinding.key := ''cmd+shift+k''\<rparr>]
         [''shift+cmd+k''])]"
  by (simp add: parser_eval buildPrefixTree_def addBinding_def createNode_def)

text \<open>
  C4, as the claim states it, fails: in \<open>cmd+x+shift+k\<close> the first token that is not a
  modifier is \<open>x\<close>, and the base key that \<open>parseChord\<close> returns is \<open>k\<close>.
\<close>

theorem parseChord_first_non_modifier_counterexample:
  "KeyChord.key (parseChord ''cmd+x+shift+k'') \<noteq> spec_baseKey (chordParts ''cmd+x+shift+k'')"
  by (simp add: parser_eval)

text \<open>
  C4, amended. For every chord string, the modifiers of the parsed chord are the tokens
  before the last that are in the modifier set, in their order, and the base key is the
  last token, whatever stands before it: the loop goes on after a token that is not a
  modifier, and a later token replaces the key. For \<open>cmd+x+shift+k\<close> the base key is \<open>k\<close>
  and the modifiers are \<open>cmd\<close> and \<open>shift\<close>.
\<close>

theorem parseChord_base_key_is_last_token:
  "chordParts c \<noteq> [] \<and>
   KeyChord.modifiers (parseChord c) =
     filter (\<lambda>p. p \<in> set modifierSet) (butlast (chordParts c)) \<and>
   KeyChord.key (parseChord c) = last (chordParts c) \<and>
   parseChord ''cmd+x+shift+k'' =
     \<lparr>KeyChord.modifiers = [''cmd'', ''shift''], KeyChord.key = ''k'',
      KeyChord.raw = ''cmd+x+shift+k''\<rparr>"
proof -
  have "parseChord ''cmd+x+shift+k'' =
     \<lparr>KeyChord.modifiers = [''cmd'', ''shift''], KeyChord.key = ''k'',
      KeyChord.raw = ''cmd+x+shift+k''\<rparr>"
    by (simp add: parser_eval)
  then show ?thesis
    by (simp add: parseChord_fields chordParts_not_Nil)
qed

text \<open>
  C5, as the claim states it, fails: \<open>cmd+shift\<close> has two tokens, and its base key is the
  recognized modifier \<open>shift\<close>.
\<close>

theorem parseChord_modifier_base_key_counterexample:
  "chordParts ''cmd+shift'' = [''cmd'', ''shift''] \<and>
   KeyChord.key (parseChord ''cmd+shift'') = ''shift'' \<and>
   ''shift'' \<in> set modifierSet"
  by (simp add: parser_eval)

text \<open>
  C5, amended. The base key of a parsed chord is a recognized modifier exactly when the
  last token of the chord is one, in a chord of one token or of several; and a chord of a
  single token has that token as its base key and no modifiers, also when the token is a
  modifier name.
\<close>

theorem parseChord_base_key_modifier_iff:
  "(KeyChord.key (parseChord c) \<in> set modifierSet \<longleftrightarrow> last (chordParts c) \<in> set modifierSet) \<and>
   (chordParts c = [t] \<longrightarrow>
      parseChord c = \<lparr>KeyChord.modifiers = [], KeyChord.key = t, KeyChord.raw = c\<rparr>)"
  by (simp add: parseChord_fields)

theorem parseChord_base_key_modifier_iff_witness:
  "chordParts ''shift'' = [''shift''] \<and> ''shift'' \<in> set modifierSet \<and>
   parseChord ''shift'' =
     \<lparr>KeyChord.modifiers = [], KeyChord.key = ''shift'', KeyChord.raw = ''shift''\<rparr>"
proof -
  have h: "chordParts ''shift'' = [''shift'']"
    by (simp add: chordParts_def toLowerCase_def lowerChar_def)
  show ?thesis
    using h parseChord_base_key_modifier_iff [of "''shift''" "''shift''"]
    by (simp add: modifierSet_def)
qed

text \<open>
  C6, as the claim states it, fails: the chords parsed from \<open>CMD+K\<close> and from \<open>cmd+k\<close>
  are not equal.
\<close>

theorem parseChord_case_counterexample:
  "parseChord ''CMD+K'' \<noteq> parseChord ''cmd+k''"
  by (simp add: parser_eval)

text \<open>
  C6, amended. The chords parsed from \<open>CMD+K\<close> and from \<open>cmd+k\<close> have the same modifiers
  (\<open>cmd\<close>) and the same base key (\<open>k\<close>); the field \<open>raw\<close> holds the chord string as it was
  given, so it differs. In general a chord string and its lower-case form parse to chords
  that differ in \<open>raw\<close> only.
\<close>

theorem parseChord_case_insensitive_up_to_raw:
  "parseChord ''CMD+K'' =
     \<lparr>KeyChord.modifiers = [''cmd''], KeyChord.key = ''k'', KeyChord.raw = ''CMD+K''\<rparr> \<and>
   parseChord ''cmd+k'' =
     \<lparr>KeyChord.modifiers = [''cmd''], KeyChord.key = ''k'', KeyChord.raw = ''cmd+k''\<rparr> \<and>
   parseChord c = (parseChord (toLowerCase c))\<lparr>KeyChord.raw := c\<rparr>"
proof -
  have "parseChord c = (parseChord (toLowerCase c))\<lparr>KeyChord.raw := c\<rparr>"
    by (simp add: parseChord_fields chordParts_def toLowerCase_idem)
  moreover have "parseChord ''CMD+K'' =
     \<lparr>KeyChord.modifiers = [''cmd''], KeyChord.key = ''k'', KeyChord.raw = ''CMD+K''\<rparr>"
    by (simp add: parser_eval)
  moreover have "parseChord ''cmd+k'' =
     \<lparr>KeyChord.modifiers = [''cmd''], KeyChord.key = ''k'', KeyChord.raw = ''cmd+k''\<rparr>"
    by (simp add: parser_eval)
  ultimately show ?thesis by simp
qed

text \<open>
  C7. For the empty string and for a string of white space the trimmed form is empty, and
  \<open>parseKeySequence\<close> returns one chord, with no modifiers and an empty base key, where the
  claim has a sequence of length zero: \<open>split\<close> gives one empty token for the empty string.
  No input gives a sequence of length zero.
\<close>

theorem parseKeySequence_blank_one_chord:
  "trim '''' = [] \<and> trim ''   '' = [] \<and>
   parseKeySequence '''' =
     [\<lparr>KeyChord.modifiers = [], KeyChord.key = [], KeyChord.raw = []\<rparr>] \<and>
   parseKeySequence ''   '' =
     [\<lparr>KeyChord.modifiers = [], KeyChord.key = [], KeyChord.raw = []\<rparr>] \<and>
   length (parseKeySequence s) \<ge> 1"
proof -
  have "length (parseKeySequence s) \<ge> 1"
    using splitWhitespace_not_Nil [of "trim s"]
    by (cases "splitWhitespace (trim s)") (simp_all add: parseKeySequence_def)
  then show ?thesis
    by (simp add: parser_eval)
qed

section \<open>The prefix tree\<close>

lemmas tree_eval =
  buildPrefixTree_def addBinding_def createNode_def getTreeStats_def flattenTree_def

lemma traverseFlatten_createNode: "traverseFlatten (createNode c path) = []"
  by (simp add: createNode_def)

text \<open>
  Storing a node under a key adds to the flattened map what the node holds beyond the
  node that was looked up under that key (a fresh node when there was none).
\<close>

lemma mset_flatten_update:
  assumes "mset (traverseFlatten v) =
             mset (traverseFlatten (case map_of m k of None \<Rightarrow> n0 | Some n \<Rightarrow> n)) + X"
    and "traverseFlatten n0 = []"
  shows "mset (concat (map (\<lambda>kn. traverseFlatten (snd kn)) (AList.update k v m))) =
           mset (concat (map (\<lambda>kn. traverseFlatten (snd kn)) m)) + X"
  using assms by (induction m) auto

lemma mset_walkChords:
  "mset (traverseFlatten (walkChords path rs b node)) = mset (traverseFlatten node) + {#b#}"
proof (induction rs arbitrary: path node)
  case Nil
  show ?case by (cases node) simp
next
  case (Cons r rs)
  obtain c ch bs fp where node: "node = PrefixNode c ch bs fp"
    by (cases node)
  let ?k = "normalizeChordKey r"
  let ?child = "case map_of ch ?k of None \<Rightarrow> createNode r (path @ [r]) | Some n \<Rightarrow> n"
  have "mset (traverseFlatten (walkChords (path @ [r]) rs b ?child)) =
          mset (traverseFlatten ?child) + {#b#}"
    by (rule Cons.IH)
  then have "mset (concat (map (\<lambda>kn. traverseFlatten (snd kn))
                 (AList.update ?k (walkChords (path @ [r]) rs b ?child) ch))) =
             mset (concat (map (\<lambda>kn. traverseFlatten (snd kn)) ch)) + {#b#}"
    by (rule mset_flatten_update) (rule traverseFlatten_createNode)
  then show ?case
    by (simp add: node Let_def)
qed

lemma mset_flattenTree_addBinding:
  "mset (flattenTree (addBinding roots b)) =
     mset (flattenTree roots) + (if ParsedKeybinding.key b = [] then {#} else {#b#})"
proof (cases "ParsedKeybinding.key b = []")
  case True
  then show ?thesis by (simp add: addBinding_def)
next
  case False
  obtain c0 cs where chords: "parseKeySequence (ParsedKeybinding.key b) = c0 # cs"
    using parseKeySequence_not_Nil [of "ParsedKeybinding.key b"]
    by (cases "parseKeySequence (ParsedKeybinding.key b)") auto
  let ?k = "normalizeChordKey (KeyChord.raw c0)"
  let ?node = "case map_of roots ?k of
                 None \<Rightarrow> createNode (KeyChord.raw c0) [KeyChord.raw c0] | Some n \<Rightarrow> n"
  have "mset (traverseFlatten (walkChords [KeyChord.raw c0] (map KeyChord.raw cs) b ?node)) =
          mset (traverseFlatten ?node) + {#b#}"
    by (rule mset_walkChords)
  then have "mset (concat (map (\<lambda>kn. traverseFlatten (snd kn))
                 (AList.update ?k
                    (walkChords [KeyChord.raw c0] (map KeyChord.raw cs) b ?node) roots))) =
             mset (concat (map (\<lambda>kn. traverseFlatten (snd kn)) roots)) + {#b#}"
    by (rule mset_flatten_update) (rule traverseFlatten_createNode)
  with False chords show ?thesis
    by (simp add: addBinding_def flattenTree_def Let_def)
qed

lemma mset_flattenTree_foldl:
  "mset (flattenTree (foldl addBinding roots bs)) =
     mset (flattenTree roots) + mset (filter (\<lambda>b. ParsedKeybinding.key b \<noteq> []) bs)"
  by (induction bs arbitrary: roots) (simp_all add: mset_flattenTree_addBinding)

text \<open>
  A key of white space only is not the empty string: it parses to one chord with an empty
  base key, and its binding is stored at a root node whose chord is the empty string.
\<close>

lemma buildPrefixTree_blank_key:
  "buildPrefixTree [binding '' '' ''x''] = [([], PrefixNode [] [] [binding '' '' ''x''] [[]])]"
  by (simp add: parser_eval tree_eval binding_def)

text \<open>
  What the tree keeps: for every list of bindings, the flattened tree is, as a multiset,
  the list of those bindings whose string \<open>key\<close> is not the empty string.
\<close>

lemma mset_flattenTree_buildPrefixTree:
  "mset (flattenTree (buildPrefixTree B)) =
     mset (filter (\<lambda>b. ParsedKeybinding.key b \<noteq> []) B)"
  using mset_flattenTree_foldl [of "[]" B]
  by (simp add: buildPrefixTree_def flattenTree_def)

text \<open>
  C2. The binding whose key is one space has an empty key sequence, its trimmed key being
  empty, and yet it occurs once in the flattened tree, where the claim has it occur zero
  times: \<open>parseKeySequence\<close> gives it one chord, so the test \<open>chords.length === 0\<close> of
  \<open>buildPrefixTree\<close> does not drop it. For every list of bindings the flattened tree
  holds, once each, the bindings whose key is not the empty string, so the claim holds of
  every binding but those whose key is white space only.
\<close>

theorem flattenTree_keeps_blank_key_binding:
  "trim (ParsedKeybinding.key (binding '' '' ''x'')) = [] \<and>
   length (parseKeySequence (ParsedKeybinding.key (binding '' '' ''x''))) = 1 \<and>
   flattenTree (buildPrefixTree [binding '' '' ''x'']) = [binding '' '' ''x''] \<and>
   mset (flattenTree (buildPrefixTree B)) =
     mset (filter (\<lambda>b. ParsedKeybinding.key b \<noteq> []) B)"
proof -
  have "trim (ParsedKeybinding.key (binding '' '' ''x'')) = []"
    by (simp add: binding_def trim_def isSpace_def)
  moreover have "length (parseKeySequence (ParsedKeybinding.key (binding '' '' ''x''))) = 1"
    by (simp add: binding_def parser_eval)
  moreover have "flattenTree (buildPrefixTree [binding '' '' ''x'']) = [binding '' '' ''x'']"
    by (simp add: buildPrefixTree_blank_key flattenTree_def)
  ultimately show ?thesis
    by (simp add: mset_flattenTree_buildPrefixTree)
qed

text \<open>
  C9. The tree built from the bindings of \<open>cmd+k cmd+s\<close> and of \<open>cmd+k\<close> has a root node
  for \<open>cmd+k\<close>, which holds the second binding, with one child for \<open>cmd+s\<close>, which holds
  the first: two nodes, depth 1, one binding at depth 0 and one below.
\<close>

theorem tree_stats_shared_prefix:
  "buildPrefixTree
     [b1\<lparr>ParsedKeybinding.key := ''cmd+k cmd+s'', command := ''workbench.action.files.saveAll''\<rparr>,
      b2\<lparr>ParsedKeybinding.key := ''cmd+k'', command := ''x''\<rparr>] =
     [(''cmd+k'',
       PrefixNode ''cmd+k''
         [(''cmd+s'',
           PrefixNode ''cmd+s'' []
             [b1\<lparr>ParsedKeybinding.key := ''cmd+k cmd+s'',
                 command := ''workbench.action.files.saveAll''\<rparr>]
             [''cmd+k'', ''cmd+s''])]
         [b2\<lparr>ParsedKeybinding.key := ''cmd+k'', command := ''x''\<rparr>]
         [''cmd+k''])] \<and>
   getTreeStats
     (buildPrefixTree
        [b1\<lparr>ParsedKeybinding.key := ''cmd+k cmd+s'',
            command := ''workbench.action.files.saveAll''\<rparr>,
         b2\<lparr>ParsedKeybinding.key := ''cmd+k'', command := ''x''\<rparr>]) =
     \<lparr>totalNodes = 2, maxDepth = 1, multiChordCount = 1, singleChordCount = 1\<rparr>"
  by (simp add: parser_eval tree_eval)

section \<open>The live tracker\<close>

lemma handleKeyPress_sequence:
  "c \<noteq> [] \<Longrightarrow> currentChordSequence (handleKeyPress t c) = currentChordSequence t @ [c]"
  by (simp add: handleKeyPress_def Let_def)

lemma handleKeyPress_isActive: "isActive (handleKeyPress t c) = isActive t"
  by (simp add: handleKeyPress_def Let_def)

lemma foldl_handleKeyPress_sequence:
  "\<forall>c \<in> set cs. c \<noteq> [] \<Longrightarrow>
   currentChordSequence (foldl handleKeyPress t cs) = currentChordSequence t @ cs"
  by (induction cs arbitrary: t) (simp_all add: handleKeyPress_sequence)

lemma foldl_handleKeyPress_isActive: "isActive (foldl handleKeyPress t cs) = isActive t"
  by (induction cs arbitrary: t) (simp_all add: handleKeyPress_isActive)

lemma foldl_handleKeyPress_pending:
  "\<forall>c \<in> set cs. c \<noteq> [] \<Longrightarrow> cs \<noteq> [] \<Longrightarrow> timerPending (foldl handleKeyPress t cs)"
proof (induction cs arbitrary: t rule: rev_induct)
  case Nil
  then show ?case by simp
next
  case (snoc c cs)
  then show ?case by (simp add: handleKeyPress_def Let_def)
qed

lemma timerFires_pending_active:
  "timerPending t \<Longrightarrow> isActive t \<Longrightarrow>
   currentChordSequence (timerFires t) = [] \<and> fired (timerFires t) = fired t \<and>
   isActive (timerFires t)"
  by (simp add: timerFires_def resetSequence_def)

text \<open>
  C3. On an active tracker with an empty sequence, after key presses with the non-empty
  chords \<open>cs\<close>, one after the other, \<open>getCurrentSequence\<close> returns \<open>cs\<close>, so as many
  chords as there were calls, in call order. When there was at least one key press, a
  timer is then pending; when it fires it empties the stored sequence and notifies nobody,
  and the next key press, with a non-empty chord \<open>c\<close>, leaves the sequence \<open>[c]\<close>, of
  length one.
\<close>

theorem tracker_sequence_and_timeout:
  assumes "isActive t" and "currentChordSequence t = []"
    and "\<forall>x \<in> set cs. x \<noteq> []" and "c \<noteq> []"
  shows "getCurrentSequence (foldl handleKeyPress t cs) = cs \<and>
         length (getCurrentSequence (foldl handleKeyPress t cs)) = length cs \<and>
         (cs \<noteq> [] \<longrightarrow> timerPending (foldl handleKeyPress t cs)) \<and>
         fired (timerFires (foldl handleKeyPress t cs)) = fired (foldl handleKeyPress t cs) \<and>
         getCurrentSequence (handleKeyPress (timerFires (foldl handleKeyPress t cs)) c) = [c]"
proof -
  let ?t = "foldl handleKeyPress t cs"
  have sq: "currentChordSequence ?t = cs"
    using assms(2,3) by (simp add: foldl_handleKeyPress_sequence)
  have act: "isActive ?t"
    using assms(1) by (simp add: foldl_handleKeyPress_isActive)
  have pend: "cs \<noteq> [] \<longrightarrow> timerPending ?t"
    using assms(3) by (simp add: foldl_handleKeyPress_pending)
  have after: "currentChordSequence (timerFires ?t) = [] \<and> fired (timerFires ?t) = fired ?t"
  proof (cases "timerPending ?t")
    case True
    then show ?thesis using act by (simp add: timerFires_pending_active)
  next
    case False
    then have "cs = []" using pend by blast
    with False sq show ?thesis by (simp add: timerFires_def)
  qed
  have "currentChordSequence (handleKeyPress (timerFires ?t) c) = [c]"
    using after assms(4) by (simp add: handleKeyPress_sequence)
  with sq pend after show ?thesis
    by (simp add: getCurrentSequence_def)
qed

theorem tracker_sequence_and_timeout_witness:
  "getCurrentSequence
     (foldl handleKeyPress
        (activate \<lparr>isActive = False, currentChordSequence = [], resetTimer = None,
                   timerPending = False, timersCreated = 0, fired = []\<rparr>)
        [''cmd+k'', ''cmd+s'', ''a'']) = [''cmd+k'', ''cmd+s'', ''a''] \<and>
   getCurrentSequence
     (handleKeyPress
        (timerFires
           (foldl handleKeyPress
              (activate \<lparr>isActive = False, currentChordSequence = [], resetTimer = None,
                         timerPending = False, timersCreated = 0, fired = []\<rparr>)
              [''cmd+k'', ''cmd+s'', ''a'']))
        ''b'') = [''b'']"
proof -
  let ?t = "activate \<lparr>isActive = False, currentChordSequence = [], resetTimer = None,
                      timerPending = False, timersCreated = 0, fired = []\<rparr>"
  have h1: "isActive ?t" by (simp add: activate_def)
  have h2: "currentChordSequence ?t = []" by (simp add: activate_def)
  have h3: "\<forall>x \<in> set [''cmd+k'', ''cmd+s'', ''a'']. x \<noteq> []" by simp
  have h4: "''b'' \<noteq> []" by simp
  show ?thesis
    using tracker_sequence_and_timeout [OF h1 h2 h3 h4] by simp
qed

text \<open>
  C10. A key press with the empty chord string returns before anything is touched: the
  tracker is left as it was, with the same stored sequence, the same log of notifications,
  and the same timer, pending or not.
\<close>

theorem handleKeyPress_empty_chord_noop:
  "handleKeyPress t [] = t \<and>
   currentChordSequence (handleKeyPress t []) = currentChordSequence t \<and>
   fired (handleKeyPress t []) = fired t \<and>
   resetTimer (handleKeyPress t []) = resetTimer t \<and>
   timerPending (handleKeyPress t []) = timerPending t \<and>
   timersCreated (handleKeyPress t []) = timersCreated t"
  by (simp add: handleKeyPress_def)

text \<open>
  C8, as the claim states it, fails: with the current sequence \<open>cmd+opt+g\<close>, a binding
  whose key is \<open>cmd+opt+g\<close> equals the joined sequence and is dropped by \<open>filterBindings\<close>,
  which compares with \<open>cmd+option+g\<close>.
\<close>

theorem filterBindings_opt_counterexample:
  "filterBindings
     \<lparr>isActive = True, currentChordSequence = [''cmd+opt+g''], resetTimer = Some 0,
      timerPending = True, timersCreated = 1, fired = [[''cmd+opt+g'']]\<rparr>
     [binding ''cmd+opt+g'' ''x''] \<noteq>
   spec_filterBindings [''cmd+opt+g''] [binding ''cmd+opt+g'' ''x'']"
  by (simp add: filterBindings_def spec_filterBindings_def binding_def isWordChar_def
      startsWith_def toLowerCase_def lowerChar_def Let_def)

text \<open>
  C8, amended. With an empty current sequence \<open>filterBindings\<close> returns its input. Otherwise
  let \<open>S\<close> be the lower-case form of the chords of the current sequence, each with every
  whole word \<open>opt\<close> replaced by \<open>option\<close>, joined by single spaces: the result is the list of
  the input bindings, in input order, whose key in lower case is \<open>S\<close> or starts with \<open>S\<close>
  and a space.
\<close>

theorem filterBindings_prefix_filter:
  "(currentChordSequence t = [] \<longrightarrow> filterBindings t bs = bs) \<and>
   (currentChordSequence t \<noteq> [] \<longrightarrow>
      filterBindings t bs =
        filter (\<lambda>b.
           toLowerCase (ParsedKeybinding.key b) =
             toLowerCase (joinWith '' '' (map (replaceOpt False) (currentChordSequence t))) \<or>
           startsWith (toLowerCase (ParsedKeybinding.key b))
             (toLowerCase (joinWith '' '' (map (replaceOpt False) (currentChordSequence t)))
                @ '' '')) bs)"
  by (auto simp: filterBindings_def Let_def intro: filter_cong)

theorem filterBindings_prefix_filter_witness:
  "filterBindings
     \<lparr>isActive = True, currentChordSequence = [], resetTimer = None,
      timerPending = False, timersCreated = 0, fired = []\<rparr>
     [binding ''cmd+k'' ''x'', binding ''cmd+option+g s'' ''y''] =
     [binding ''cmd+k'' ''x'', binding ''cmd+option+g s'' ''y''] \<and>
   filterBindings
     \<lparr>isActive = True, currentChordSequence = [''cmd+opt+g''], resetTimer = Some 0,
      timerPending = True, timersCreated = 1, fired = [[''cmd+opt+g'']]\<rparr>
     [binding ''cmd+k'' ''x'', binding ''Cmd+Option+G s'' ''y'', binding ''cmd+option+g'' ''z'',
      binding ''cmd+option+gs'' ''w''] =
     [binding ''Cmd+Option+G s'' ''y'', binding ''cmd+option+g'' ''z'']"
proof -
  let ?t0 = "\<lparr>isActive = True, currentChordSequence = [], resetTimer = None,
      timerPending = False, timersCreated = 0, fired = []\<rparr>"
  let ?t1 = "\<lparr>isActive = True, currentChordSequence = [''cmd+opt+g''], resetTimer = Some 0,
      timerPending = True, timersCreated = 1, fired = [[''cmd+opt+g'']]\<rparr>"
  have e: "currentChordSequence ?t0 = []" by simp
  have n: "currentChordSequence ?t1 \<noteq> []" by simp
  have a: "filterBindings ?t0 [binding ''cmd+k'' ''x'', binding ''cmd+option+g s'' ''y''] =
      [binding ''cmd+k'' ''x'', binding ''cmd+option+g s'' ''y'']"
    using e filterBindings_prefix_filter
      [of ?t0 "[binding ''cmd+k'' ''x'', binding ''cmd+option+g s'' ''y'']"]
    by simp
  have b: "filterBindings ?t1
      [binding ''cmd+k'' ''x'', binding ''Cmd+Option+G s'' ''y'', binding ''cmd+option+g'' ''z'',
       binding ''cmd+option+gs'' ''w''] =
      [binding ''Cmd+Option+G s'' ''y'', binding ''cmd+option+g'' ''z'']"
    using n filterBindings_prefix_filter
      [of ?t1 "[binding ''cmd+k'' ''x'', binding ''Cmd+Option+G s'' ''y'',
                binding ''cmd+option+g'' ''z'', binding ''cmd+option+gs'' ''w'']"]
    by (simp add: binding_def isWordChar_def startsWith_def toLowerCase_def lowerChar_def)
  from a b show ?thesis by simp
qed

end
